theory Spec2Isabelle
  imports Main "HOL-Library.Sublist"
begin

section \<open>Python values and strings\<close>

text \<open>
  A Python \<open>str\<close> is a sequence of Unicode code points, so a string is a list of
  natural numbers (\<open>0x41\<close> is the letter A).  The cells of a data frame read from a CSV
  file and the arguments of \<open>clean_str\<close> are strings, integers or one of the missing
  values \<open>None\<close> and \<open>NaN\<close>.  Floating-point cells other than \<open>NaN\<close> are outside the
  model.
\<close>

type_synonym pystr = "nat list"

datatype pyval = PyNone | PyNaN | PyStr pystr | PyInt int

text \<open>\<open>pd.isna\<close> on a scalar.\<close>

fun isna :: "pyval \<Rightarrow> bool" where
  "isna PyNone = True"
| "isna PyNaN = True"
| "isna (PyStr s) = False"
| "isna (PyInt i) = False"

text \<open>\<open>str(s)\<close>: the decimal digits of an integer, the text of a string.\<close>

function digits :: "nat \<Rightarrow> pystr" where
  "digits n = (if n < 10 then [48 + n] else digits (n div 10) @ [48 + n mod 10])"
  by pat_completeness auto
termination
  by (relation "measure (\<lambda>n. n)") auto

declare digits.simps [simp del]

definition str_int :: "int \<Rightarrow> pystr" where
  "str_int i = (if i < 0 then 45 # digits (nat (- i)) else digits (nat i))"

fun py_str :: "pyval \<Rightarrow> pystr" where
  "py_str (PyStr s) = s"
| "py_str (PyInt i) = str_int i"
| "py_str PyNone = [78, 111, 110, 101]"
| "py_str PyNaN = [110, 97, 110]"

subsection \<open>White space\<close>

text \<open>
  \<open>str.strip\<close> and the class \<open>\s\<close> of \<open>re\<close> use one set of white-space characters: the code
  points that \<open>str.isspace\<close> accepts.  The set is listed in full.
\<close>

definition isspace :: "nat \<Rightarrow> bool" where
  "isspace c \<longleftrightarrow>
     (9 \<le> c \<and> c \<le> 13) \<or> (28 \<le> c \<and> c \<le> 32) \<or> c = 0x85 \<or> c = 0xA0 \<or> c = 0x1680 \<or>
     (0x2000 \<le> c \<and> c \<le> 0x200A) \<or> c = 0x2028 \<or> c = 0x2029 \<or> c = 0x202F \<or>
     c = 0x205F \<or> c = 0x3000"

definition strip :: "pystr \<Rightarrow> pystr" where
  "strip s = rev (dropWhile isspace (rev (dropWhile isspace s)))"

text \<open>\<open>re.sub(r"\s+", " ", s)\<close>: every maximal run of white space becomes one space.\<close>

function re_sub_ws :: "pystr \<Rightarrow> pystr" where
  "re_sub_ws [] = []"
| "re_sub_ws (c # cs) =
     (if isspace c then 0x20 # re_sub_ws (dropWhile isspace cs) else c # re_sub_ws cs)"
  by pat_completeness auto
termination
  by (relation "measure length") (auto simp: le_imp_less_Suc length_dropWhile_le)

subsection \<open>The Unicode functions of the library\<close>

text \<open>
  \<open>unicodedata.normalize("NFKC", s)\<close> and \<open>s.lower()\<close> are computed from the Unicode
  character tables of the interpreter, which are no part of the repository.  The model
  takes the two functions as a parameter: every definition that normalises a string
  has the library as its first argument, and every general statement holds for every
  library, or for every library with the properties it names.
\<close>

record unicode_lib =
  normalize_nfkc :: "pystr \<Rightarrow> pystr"
  str_lower :: "pystr \<Rightarrow> pystr"

subsection \<open>The normaliser of HistoryDataSearch.py\<close>

definition clean_str :: "unicode_lib \<Rightarrow> pyval \<Rightarrow> pystr" where
  "clean_str U s =
     (if isna s then []
      else str_lower U (re_sub_ws (strip (normalize_nfkc U (py_str s)))))"

subsection \<open>Properties of the library that statements rely on\<close>

text \<open>
  On ASCII strings NFKC changes nothing and \<open>lower\<close> maps the capitals A to Z to the small
  letters and leaves every other character.
\<close>

definition ascii_lower :: "nat \<Rightarrow> nat" where
  "ascii_lower c = (if 0x41 \<le> c \<and> c \<le> 0x5A then c + 32 else c)"

definition acts_on_ascii :: "unicode_lib \<Rightarrow> bool" where
  "acts_on_ascii U \<longleftrightarrow>
     (\<forall>s. (\<forall>c\<in>set s. c < 128) \<longrightarrow>
        normalize_nfkc U s = s \<and> str_lower U s = map ascii_lower s)"

text \<open>
  Lower-casing keeps the empty string, lower-casing twice is lower-casing once, and
  lower-casing neither makes nor removes white space, so that it commutes with \<open>strip\<close>
  and with the collapsing of white space.
\<close>

definition lower_laws :: "unicode_lib \<Rightarrow> bool" where
  "lower_laws U \<longleftrightarrow>
     str_lower U [] = []
     \<and> (\<forall>s. str_lower U (str_lower U s) = str_lower U s
            \<and> strip (str_lower U s) = str_lower U (strip s)
            \<and> re_sub_ws (str_lower U s) = str_lower U (re_sub_ws s))"

subsection \<open>An excerpt of the Unicode tables\<close>

text \<open>
  To evaluate the normaliser on concrete strings, \<open>unicode_excerpt\<close> gives the two functions
  on a small alphabet: ASCII, the white-space characters, the full-width forms U+FF01 to
  U+FF5E, the combining caron U+030C and the 33 Latin letters with caron that are its
  canonical compositions with an ASCII letter.  On strings over \<open>alphabet\<close> it agrees with
  Python 3.11 (Unicode 14).  It says nothing about other strings and is used only in
  examples over \<open>alphabet\<close>.
\<close>

text \<open>Canonical compositions of an ASCII letter with U+030C: (letter, composite).\<close>

definition caron_pairs :: "(nat \<times> nat) list" where
  "caron_pairs =
     [(0x41, 0x1CD), (0x43, 0x10C), (0x44, 0x10E), (0x45, 0x11A), (0x47, 0x1E6),
      (0x48, 0x21E), (0x49, 0x1CF), (0x4B, 0x1E8), (0x4C, 0x13D), (0x4E, 0x147),
      (0x4F, 0x1D1), (0x52, 0x158), (0x53, 0x160), (0x54, 0x164), (0x55, 0x1D3),
      (0x5A, 0x17D),
      (0x61, 0x1CE), (0x63, 0x10D), (0x64, 0x10F), (0x65, 0x11B), (0x67, 0x1E7),
      (0x68, 0x21F), (0x69, 0x1D0), (0x6A, 0x1F0), (0x6B, 0x1E9), (0x6C, 0x13E),
      (0x6E, 0x148), (0x6F, 0x1D2), (0x72, 0x159), (0x73, 0x161), (0x74, 0x165),
      (0x75, 0x1D4), (0x7A, 0x17E)]"

definition capital_carons :: "nat list" where
  "capital_carons =
     [0x1CD, 0x10C, 0x10E, 0x11A, 0x1E6, 0x21E, 0x1CF, 0x1E8, 0x13D, 0x147, 0x1D1,
      0x158, 0x160, 0x164, 0x1D3, 0x17D]"

definition alphabet :: "nat \<Rightarrow> bool" where
  "alphabet c \<longleftrightarrow>
     c < 128 \<or> isspace c \<or> (0xFF01 \<le> c \<and> c \<le> 0xFF5E) \<or> c = 0x30C \<or>
     c \<in> snd ` set caron_pairs"

text \<open>Compatibility decomposition of one code point of the alphabet.\<close>

definition decompose_excerpt :: "nat \<Rightarrow> pystr" where
  "decompose_excerpt c =
     (if 0xFF01 \<le> c \<and> c \<le> 0xFF5E then [c - 0xFEE0]
      else if c = 0xA0 \<or> (0x2000 \<le> c \<and> c \<le> 0x200A) \<or> c = 0x202F \<or> c = 0x205F
              \<or> c = 0x3000 then [0x20]
      else case map_of (map prod.swap caron_pairs) c of
             Some b \<Rightarrow> [b, 0x30C]
           | None \<Rightarrow> [c])"

text \<open>Canonical composition: a letter takes the caron that follows it.\<close>

fun compose_excerpt :: "pystr \<Rightarrow> pystr" where
  "compose_excerpt (b # m # cs) =
     (if m = 0x30C then
        (case map_of caron_pairs b of
           Some p \<Rightarrow> compose_excerpt (p # cs)
         | None \<Rightarrow> b # compose_excerpt (m # cs))
      else b # compose_excerpt (m # cs))"
| "compose_excerpt cs = cs"

definition nfkc_excerpt :: "pystr \<Rightarrow> pystr" where
  "nfkc_excerpt s = compose_excerpt (concat (map decompose_excerpt s))"

definition lower_cp_excerpt :: "nat \<Rightarrow> nat" where
  "lower_cp_excerpt c =
     (if 0x41 \<le> c \<and> c \<le> 0x5A then c + 32
      else if 0xFF21 \<le> c \<and> c \<le> 0xFF3A then c + 32
      else if c \<in> set capital_carons then c + 1
      else c)"

definition lower_excerpt :: "pystr \<Rightarrow> pystr" where
  "lower_excerpt s = map lower_cp_excerpt s"

definition unicode_excerpt :: unicode_lib where
  "unicode_excerpt = \<lparr>normalize_nfkc = nfkc_excerpt, str_lower = lower_excerpt\<rparr>"

section \<open>The two joins of HistoryDataSearch\<close>

text \<open>
  The rows of the three frames carry the columns the function reads.  The cells of the
  two code columns have the type \<open>'k\<close> and are compared by equality, as \<open>pd.merge\<close> does
  when it accepts the two columns (missing keys match each other).  \<open>rest\<close> stands for the
  other columns of the price table.
\<close>

record ('k, 'a) price_row =
  code_prefix :: 'k
  category_name :: pyval
  rest :: 'a

record 'k index_row =
  func_code :: 'k
  name :: pyval

text \<open>A row of the stage-1 result: the price row, its clean column, and the two columns
  taken from the index frame.\<close>

record ('k, 'a) joined_row =
  price :: "('k, 'a) price_row"
  category_name_clean :: pystr
  index_code :: 'k
  name_clean :: pystr

datatype indicator = left_only | right_only | both

record ('k, 'a) merged_row =
  joined :: "('k, 'a) joined_row"
  category_clean :: "pystr option"
  merge_ind :: indicator

record ('k, 'a) out_row =
  source :: "('k, 'a) price_row"
  change_flag :: nat

text \<open>Step 5: \<open>pd.merge\<close> with \<open>how="inner"\<close> of the price frame and the code and clean-name
  columns of the index frame.\<close>

definition stage1 ::
  "unicode_lib \<Rightarrow> ('k, 'a) price_row list \<Rightarrow> 'k index_row list
     \<Rightarrow> ('k, 'a) joined_row list" where
  "stage1 U df_price df_index =
     concat (map (\<lambda>p.
       map (\<lambda>i. \<lparr>price = p, category_name_clean = clean_str U (category_name p),
                  index_code = func_code i, name_clean = clean_str U (name i)\<rparr>)
           (filter (\<lambda>i. func_code i = code_prefix p) df_index)) df_price)"

text \<open>\<open>drop_duplicates\<close> keeps the first occurrence of every value.\<close>

definition drop_duplicates :: "'a list \<Rightarrow> 'a list" where
  "drop_duplicates xs = rev (remdups (rev xs))"

text \<open>Step 6: the clean column of the format frame, without duplicates.\<close>

definition df_format_valid :: "unicode_lib \<Rightarrow> pyval list \<Rightarrow> pystr list" where
  "df_format_valid U df_format = drop_duplicates (map (clean_str U) df_format)"

text \<open>Step 7: the left merge with \<open>indicator=True\<close>.\<close>

definition merge_left ::
  "('k, 'a) joined_row list \<Rightarrow> pystr list \<Rightarrow> ('k, 'a) merged_row list" where
  "merge_left result right =
     concat (map (\<lambda>l.
       (case filter (\<lambda>v. v = category_name_clean l) right of
          [] \<Rightarrow> [\<lparr>joined = l, category_clean = None, merge_ind = left_only\<rparr>]
        | ms \<Rightarrow> map (\<lambda>v. \<lparr>joined = l, category_clean = Some v, merge_ind = both\<rparr>) ms))
       result)"

text \<open>
  Steps 8 and 9: the flag column is computed from the indicator, then the helper columns
  are dropped.  The projection onto the fixed list of output columns keeps the flag and
  some of the price columns; it changes neither the rows nor their flags, and the
  output row keeps the whole price row as \<open>source\<close>.
\<close>

definition flag_row :: "('k, 'a) merged_row \<Rightarrow> ('k, 'a) out_row" where
  "flag_row m =
     \<lparr>source = price (joined m), change_flag = (if merge_ind m = both then 1 else 0)\<rparr>"

definition stage2 ::
  "unicode_lib \<Rightarrow> ('k, 'a) joined_row list \<Rightarrow> pyval list \<Rightarrow> ('k, 'a) merged_row list" where
  "stage2 U result df_format = merge_left result (df_format_valid U df_format)"

definition reconcile ::
  "unicode_lib \<Rightarrow> pyval list \<Rightarrow> 'k index_row list \<Rightarrow> ('k, 'a) price_row list
     \<Rightarrow> ('k, 'a) out_row list" where
  "reconcile U df_format df_index df_price =
     map flag_row (stage2 U (stage1 U df_price df_index) df_format)"

section \<open>HistoryDataSearch: files, validation and the exception handlers\<close>

text \<open>
  The exceptions that reach the handlers of \<open>HistoryDataSearch\<close>, by class.  As in Python and
  pandas, \<open>UnicodeDecodeError\<close>, \<open>EmptyDataError\<close> and \<open>ParserError\<close> are subclasses of
  \<open>ValueError\<close>; the other classes here are subclasses of \<open>Exception\<close> only.  An exception
  carries its class and its text \<open>str(e)\<close>.
\<close>

datatype exn_class =
  FileNotFoundError | PermissionError | ValueError | UnicodeDecodeError | EmptyDataError
  | ParserError | KeyError | MemoryError

fun issubclass :: "exn_class \<Rightarrow> exn_class \<Rightarrow> bool" where
  "issubclass c ValueError =
     (c = ValueError \<or> c = UnicodeDecodeError \<or> c = EmptyDataError \<or> c = ParserError)"
| "issubclass c d = (c = d)"

datatype py_exception = Raise exn_class pystr

text \<open>A data frame: its column names and its rows.  The fields of a row stand for the
  required columns; they are read only after the column check has passed.\<close>

record 'r frame =
  columns :: "pystr list"
  rows :: "'r list"

text \<open>The column names of step 3 and the fixed parts of the messages, as code points.\<close>

definition col_category :: pystr where
  "col_category = [0x6838, 0x50F9, 0x985E, 0x5225]"

definition col_name :: pystr where
  "col_name = [0x540D, 0x7A31]"

definition col_func_code :: pystr where
  "col_func_code = [0x529F, 0x80FD, 0x985E, 0x5225, 0x28, 0x524D, 0x35, 0x78BC, 0x29]"

definition col_code_prefix :: pystr where
  "col_code_prefix = [0x7279, 0x6750, 0x4EE3, 0x78BC, 0x524D, 0x4E94, 0x78BC]"

definition col_category_name :: pystr where
  "col_category_name = [0x6838, 0x50F9, 0x985E, 0x5225, 0x540D, 0x7A31]"

definition name_df_format :: pystr where
  "name_df_format = [0x64, 0x66, 0x5F, 0x66, 0x6F, 0x72, 0x6D, 0x61, 0x74]"

definition name_df_index :: pystr where
  "name_df_index = [0x64, 0x66, 0x5F, 0x69, 0x6E, 0x64, 0x65, 0x78]"

definition name_df_price :: pystr where
  "name_df_price = [0x64, 0x66, 0x5F, 0x70, 0x72, 0x69, 0x63, 0x65]"

text \<open>\<open>" <lacks columns>: "\<close> of the \<open>ValueError\<close> raised by the column check.\<close>

definition lacks_columns :: pystr where
  "lacks_columns = [0x20, 0x7F3A, 0x5C11, 0x6B04, 0x4F4D, 0x3A, 0x20]"

text \<open>The prefixes of the three handlers: file does not exist, data column error,
  unexpected error.\<close>

definition msg_file_missing :: pystr where
  "msg_file_missing = [0x6A94, 0x6848, 0x4E0D, 0x5B58, 0x5728, 0xFF1A]"

definition msg_column_error :: pystr where
  "msg_column_error = [0x8CC7, 0x6599, 0x6B04, 0x4F4D, 0x932F, 0x8AA4, 0xFF1A]"

definition msg_unexpected :: pystr where
  "msg_unexpected = [0x672A, 0x9810, 0x671F, 0x932F, 0x8AA4, 0xFF1A]"

text \<open>The summary: done, N rows in total; flag = 1: M rows; newline; written to the file.\<close>

definition summary :: "nat \<Rightarrow> nat \<Rightarrow> pystr \<Rightarrow> pystr" where
  "summary n_rows n_flagged out_path =
     [0x8655, 0x7406, 0x5B8C, 0x6210, 0xFF0C, 0x5171, 0x20] @ str_int (int n_rows)
     @ [0x20, 0x7B46, 0x8CC7, 0x6599, 0xFF1B]
     @ [0x9EDE, 0x6578, 0x8B8A, 0x66F4, 0x8A18, 0x9304, 0x3D, 0x31, 0xFF1A] @ str_int (int n_flagged)
     @ [0x20, 0x7B46, 0xA]
     @ [0x5DF2, 0x8F38, 0x51FA, 0x20, 0x2192, 0x20] @ out_path"

text \<open>\<open>str\<close> of a list of column names: \<open>['a', 'b']\<close>.  The names of step 3 hold no quote
  and no backslash, so each is printed between single quotes as it is.\<close>

fun repr_items :: "pystr list \<Rightarrow> pystr" where
  "repr_items [] = []"
| "repr_items [c] = 0x27 # c @ [0x27]"
| "repr_items (c # cs) = 0x27 # c @ [0x27, 0x2C, 0x20] @ repr_items cs"

definition repr_list :: "pystr list \<Rightarrow> pystr" where
  "repr_list cs = 0x5B # repr_items cs @ [0x5D]"

definition missing_columns :: "pystr list \<Rightarrow> 'r frame \<Rightarrow> pystr list" where
  "missing_columns cols df = filter (\<lambda>c. c \<notin> set (columns df)) cols"

definition missing_error :: "pystr \<Rightarrow> pystr list \<Rightarrow> py_exception" where
  "missing_error df_name missing =
     Raise ValueError (df_name @ lacks_columns @ repr_list missing)"

text \<open>
  Step 3: the three frames are checked in the order of \<open>required_cols\<close>.  The check finds
  each frame with \<open>locals()[df_name]\<close> inside a list comprehension.  Since Python 3.12 a
  comprehension is inlined into its function and \<open>locals()\<close> there holds the frames.  On
  an earlier interpreter the comprehension has a scope of its own, \<open>locals()\<close> holds no
  frame, and the first lookup raises \<open>KeyError('df_format')\<close>, whose text is the key in
  single quotes.
\<close>

definition key_error_df_format :: py_exception where
  "key_error_df_format = Raise KeyError (0x27 # name_df_format @ [0x27])"

definition check_columns ::
  "bool \<Rightarrow> pyval frame \<Rightarrow> 'k index_row frame \<Rightarrow> ('k, 'a) price_row frame
     \<Rightarrow> py_exception option" where
  "check_columns inlined df_format df_index df_price =
     (if \<not> inlined then Some key_error_df_format
      else if missing_columns [col_category] df_format \<noteq> [] then
        Some (missing_error name_df_format (missing_columns [col_category] df_format))
      else if missing_columns [col_name, col_func_code] df_index \<noteq> [] then
        Some (missing_error name_df_index (missing_columns [col_name, col_func_code] df_index))
      else if missing_columns [col_code_prefix, col_category_name] df_price \<noteq> [] then
        Some (missing_error name_df_price
                (missing_columns [col_code_prefix, col_category_name] df_price))
      else None)"

text \<open>
  What the function meets outside itself.
  \<^item> \<open>inlined_comprehensions\<close>: the interpreter is Python 3.12 or later.
  \<^item> The outcome of the three calls of \<open>pd.read_csv\<close>.
  \<^item> \<open>merge_keys_check\<close>: the check \<open>pd.merge\<close> makes of the two key columns of step 5; it
    raises \<open>ValueError\<close> for columns it will not join, such as a text column against a
    column of integers.
  \<^item> \<open>merge_indicator_check\<close>: the check \<open>merge\<close> with \<open>indicator=True\<close> makes of the column
    names of its left frame in step 7, here the columns of the price table; it raises
    \<open>ValueError\<close> when one of them is the name of the indicator column.
  \<^item> The outcome of \<open>to_csv\<close> and the output path.
  The two checks belong to pandas and are parameters of the model, each giving the
  exception it raises, if any.
\<close>

record ('k, 'a) environment =
  inlined_comprehensions :: bool
  read_format :: "py_exception + pyval frame"
  read_index :: "py_exception + 'k index_row frame"
  read_price :: "py_exception + ('k, 'a) price_row frame"
  merge_keys_check :: "'k list \<Rightarrow> 'k list \<Rightarrow> py_exception option"
  merge_indicator_check :: "pystr list \<Rightarrow> py_exception option"
  to_csv :: "py_exception option"
  output_file :: pystr

text \<open>Step 2: the three files are read in this order; the first failure ends the
  \<open>try\<close> body.\<close>

definition read_files ::
  "('k, 'a) environment \<Rightarrow>
     py_exception + (pyval frame \<times> 'k index_row frame \<times> ('k, 'a) price_row frame)" where
  "read_files env =
     (case read_format env of
        Inl e \<Rightarrow> Inl e
      | Inr df_format \<Rightarrow>
         (case read_index env of
            Inl e \<Rightarrow> Inl e
          | Inr df_index \<Rightarrow>
             (case read_price env of
                Inl e \<Rightarrow> Inl e
              | Inr df_price \<Rightarrow> Inr (df_format, df_index, df_price))))"

text \<open>Steps 5 and 7: what the two merges raise before they join.\<close>

definition merge_checks ::
  "('k, 'a) environment \<Rightarrow> 'k index_row frame \<Rightarrow> ('k, 'a) price_row frame
     \<Rightarrow> py_exception option" where
  "merge_checks env df_index df_price =
     (case merge_keys_check env (map code_prefix (rows df_price))
             (map func_code (rows df_index)) of
        Some e \<Rightarrow> Some e
      | None \<Rightarrow> merge_indicator_check env (columns df_price))"

text \<open>The body of the \<open>try\<close> statement: \<open>Inl\<close> is the exception it raises.\<close>

definition try_body ::
  "unicode_lib \<Rightarrow> ('k, 'a) environment
     \<Rightarrow> py_exception + (('k, 'a) out_row list \<times> pystr)" where
  "try_body U env =
     (case read_files env of
        Inl e \<Rightarrow> Inl e
      | Inr (df_format, df_index, df_price) \<Rightarrow>
         (case check_columns (inlined_comprehensions env) df_format df_index df_price of
            Some e \<Rightarrow> Inl e
          | None \<Rightarrow>
             (case merge_checks env df_index df_price of
                Some e \<Rightarrow> Inl e
              | None \<Rightarrow>
                 (let result = reconcile U (rows df_format) (rows df_index) (rows df_price)
                  in (case to_csv env of
                        Some e \<Rightarrow> Inl e
                      | None \<Rightarrow>
                          Inr (result,
                               summary (length result) (sum_list (map change_flag result))
                                 (output_file env)))))))"

text \<open>The three \<open>except\<close> clauses, in their order.\<close>

fun handlers :: "py_exception \<Rightarrow> pystr" where
  "handlers (Raise c text) =
     (if issubclass c FileNotFoundError then msg_file_missing @ text
      else if issubclass c ValueError then msg_column_error @ text
      else msg_unexpected @ text)"

definition HistoryDataSearch ::
  "unicode_lib \<Rightarrow> ('k, 'a) environment \<Rightarrow> ('k, 'a) out_row list option \<times> pystr" where
  "HistoryDataSearch U env =
     (case try_body U env of
        Inr (result, msg) \<Rightarrow> (Some result, msg)
      | Inl e \<Rightarrow> (None, handlers e))"

section \<open>The product index of IndexSQL.py\<close>

text \<open>
  The table \<open>products\<close> after \<open>load_data_to_db\<close> and \<open>create_index\<close>: four columns of
  text affinity, the rows in insertion order.  A missing cell of the CSV file is stored
  as NULL (\<open>None\<close>).  A connection is modelled by the rows of this table.
\<close>

record product =
  code :: "pystr option"
  product_name :: "pystr option"
  size_class :: "pystr option"
  type_cls :: "pystr option"

datatype py_error = OperationalError

subsection \<open>The LIKE operator of SQLite\<close>

text \<open>
  \<open>%\<close> (0x25) matches any sequence of characters, \<open>_\<close> (0x5F) any one character, and
  any other character matches itself, the ASCII letters without regard to case.  Pattern
  and text end at their first U+0000.  A pattern of more than 50000 bytes of UTF-8 is
  an error.
\<close>

definition sql_lower :: "nat \<Rightarrow> nat" where
  "sql_lower c = (if 0x41 \<le> c \<and> c \<le> 0x5A then c + 32 else c)"

fun pattern_compare :: "pystr \<Rightarrow> pystr \<Rightarrow> bool" where
  "pattern_compare [] [] = True"
| "pattern_compare [] (c # t) = False"
| "pattern_compare (p # ps) [] = (p = 0x25 \<and> pattern_compare ps [])"
| "pattern_compare (p # ps) (c # t) =
     (if p = 0x25 then pattern_compare ps (c # t) \<or> pattern_compare (p # ps) t
      else (p = 0x5F \<or> sql_lower p = sql_lower c) \<and> pattern_compare ps t)"

definition sql_like :: "pystr \<Rightarrow> pystr \<Rightarrow> bool" where
  "sql_like pattern text =
     pattern_compare (takeWhile (\<lambda>c. c \<noteq> 0) pattern) (takeWhile (\<lambda>c. c \<noteq> 0) text)"

definition utf8_bytes :: "pystr \<Rightarrow> nat" where
  "utf8_bytes s =
     (\<Sum>c\<leftarrow>s. if c < 0x80 then 1 else if c < 0x800 then 2 else if c < 0x10000 then 3 else 4)"

text \<open>\<open>column LIKE ?\<close> on a column that may be NULL: NULL is not a match.\<close>

fun like_column :: "pystr option \<Rightarrow> pystr \<Rightarrow> bool" where
  "like_column None pattern = False"
| "like_column (Some text) pattern = sql_like pattern text"

subsection \<open>fuzzy_search_product\<close>

definition search_pattern :: "pystr \<Rightarrow> pystr" where
  "search_pattern keyword = 0x25 # keyword @ [0x25]"

text \<open>The first query: the rows whose name, size class or type class is LIKE the pattern,
  in storage order.\<close>

definition direct_matches :: "product list \<Rightarrow> pystr \<Rightarrow> py_error + product list" where
  "direct_matches conn keyword =
     (if conn \<noteq> [] \<and> 50000 < utf8_bytes (search_pattern keyword) then Inl OperationalError
      else Inr (filter (\<lambda>r. like_column (product_name r) (search_pattern keyword)
                          \<or> like_column (size_class r) (search_pattern keyword)
                          \<or> like_column (type_cls r) (search_pattern keyword)) conn))"

text \<open>
  \<open>process.extract(keyword, product_names, scorer=fuzz.token_set_ratio, limit=30)\<close> of
  fuzzywuzzy: every choice is scored, the choices with a score of at least 0 are kept,
  and the \<open>limit\<close> best are returned, best first, equal scores in the order of the
  choices.  The scorer is a parameter of the model.
\<close>

type_synonym scorer = "pystr \<Rightarrow> pystr option \<Rightarrow> int"

definition process_extract ::
  "scorer \<Rightarrow> pystr \<Rightarrow> pystr option list \<Rightarrow> nat \<Rightarrow> (pystr option \<times> int) list" where
  "process_extract token_set_ratio query choices limit =
     take limit (sort_key (\<lambda>m. - snd m)
       (filter (\<lambda>m. 0 \<le> snd m) (map (\<lambda>c. (c, token_set_ratio query c)) choices)))"

text \<open>\<open>SELECT code FROM products WHERE name = ?\<close> followed by \<open>fetchone()\<close>: the code of
  the first row with that name, if there is one.\<close>

fun fetchone_code :: "product list \<Rightarrow> pystr option \<Rightarrow> pystr option option" where
  "fetchone_code conn None = None"
| "fetchone_code conn (Some n) = map_option code (find (\<lambda>r. product_name r = Some n) conn)"

type_synonym match_result = "pystr option \<times> pystr option"

fun collect_matches ::
  "product list \<Rightarrow> int \<Rightarrow> (pystr option \<times> int) list \<Rightarrow> match_result list" where
  "collect_matches conn threshold [] = []"
| "collect_matches conn threshold ((matched_name, score) # matches) =
     (if threshold \<le> score then
        (case fetchone_code conn matched_name of
           Some ref_code \<Rightarrow> (matched_name, ref_code) # collect_matches conn threshold matches
         | None \<Rightarrow> collect_matches conn threshold matches)
      else collect_matches conn threshold matches)"

definition fuzzy_stage :: "scorer \<Rightarrow> product list \<Rightarrow> pystr \<Rightarrow> int \<Rightarrow> match_result list" where
  "fuzzy_stage token_set_ratio conn keyword threshold =
     collect_matches conn threshold
       (process_extract token_set_ratio keyword (map product_name conn) 30)"

definition fuzzy_search_product ::
  "scorer \<Rightarrow> product list \<Rightarrow> pystr \<Rightarrow> int \<Rightarrow> py_error + match_result list" where
  "fuzzy_search_product token_set_ratio conn keyword threshold =
     (case direct_matches conn keyword of
        Inl e \<Rightarrow> Inl e
      | Inr direct \<Rightarrow>
          if direct \<noteq> [] then Inr (map (\<lambda>m. (product_name m, code m)) direct)
          else Inr (fuzzy_stage token_set_ratio conn keyword threshold))"

subsection \<open>search_products\<close>

record expanded_row =
  record_of :: product
  search_keyword :: pystr
  reference_product :: "pystr option"

text \<open>\<open>SELECT * FROM products WHERE code = ?\<close>: a NULL code equals nothing.\<close>

fun query_products_by_function :: "product list \<Rightarrow> pystr option \<Rightarrow> product list" where
  "query_products_by_function conn None = []"
| "query_products_by_function conn (Some ref_code) =
     filter (\<lambda>r. code r = Some ref_code) conn"

definition expand :: "product list \<Rightarrow> pystr \<Rightarrow> match_result list \<Rightarrow> expanded_row list" where
  "expand conn keyword matched_products =
     concat (map (\<lambda>(matched_name, ref_code).
       map (\<lambda>r. \<lparr>record_of = r, search_keyword = keyword, reference_product = matched_name\<rparr>)
           (query_products_by_function conn ref_code)) matched_products)"

text \<open>
  \<open>search_products\<close> returns nothing; what it leaves behind is the file
  IndexSQL_find.csv.  The state is the content of that file, \<open>None\<close> when it does not
  exist.  The function is given the table that \<open>load_data_to_db\<close> has loaded and uses
  the default threshold 40.
\<close>

definition search_products ::
  "scorer \<Rightarrow> product list \<Rightarrow> pystr \<Rightarrow> expanded_row list option
     \<Rightarrow> py_error option \<times> expanded_row list option" where
  "search_products token_set_ratio conn keyword index_sql_find =
     (case fuzzy_search_product token_set_ratio conn keyword 40 of
        Inl e \<Rightarrow> (Some e, index_sql_find)
      | Inr matched_products \<Rightarrow>
          if matched_products = [] then (None, index_sql_find)
          else (None, Some (expand conn keyword matched_products)))"

subsection \<open>Literal containment, for comparison with LIKE\<close>

text \<open>The keyword occurs in the text as a contiguous piece, the ASCII letters compared
  without regard to case.\<close>

definition ci_substring :: "pystr \<Rightarrow> pystr \<Rightarrow> bool" where
  "ci_substring keyword text = sublist (map sql_lower keyword) (map sql_lower text)"




text \<open>A text that a keyword with wildcards matches without containing it: every \<open>%\<close> is
  left out and every \<open>_\<close> is replaced by the letter x.\<close>

definition wild_text :: "pystr \<Rightarrow> pystr" where
  "wild_text keyword =
     map (\<lambda>c. if c = 0x5F then 0x78 else c) (filter (\<lambda>c. c \<noteq> 0x25) keyword)"

section \<open>Properties of the joins\<close>

lemma set_drop_duplicates: "set (drop_duplicates xs) = set xs"
  by (simp add: drop_duplicates_def)

lemma distinct_drop_duplicates: "distinct (drop_duplicates xs)"
  by (simp add: drop_duplicates_def)

lemma filter_eq_distinct:
  "distinct xs \<Longrightarrow> filter (\<lambda>v. v = k) xs = (if k \<in> set xs then [k] else [])"
  by (induction xs) auto

lemma merge_left_distinct:
  assumes "distinct right"
  shows "merge_left result right =
           map (\<lambda>l. if category_name_clean l \<in> set right
                     then \<lparr>joined = l, category_clean = Some (category_name_clean l),
                           merge_ind = both\<rparr>
                     else \<lparr>joined = l, category_clean = None, merge_ind = left_only\<rparr>)
               result"
  using assms by (induction result) (simp_all add: merge_left_def filter_eq_distinct)

lemma stage2_rows:
  "stage2 U result df_format =
     map (\<lambda>l. if category_name_clean l \<in> clean_str U ` set df_format
               then \<lparr>joined = l, category_clean = Some (category_name_clean l),
                     merge_ind = both\<rparr>
               else \<lparr>joined = l, category_clean = None, merge_ind = left_only\<rparr>)
         result"
  by (simp add: stage2_def df_format_valid_def merge_left_distinct
      distinct_drop_duplicates set_drop_duplicates)

text \<open>
  C9: the left merge of stage 2 keeps every stage-1 row exactly once, in order: the
  left parts of its rows are the stage-1 rows, so the two tables have the same number
  of rows.
\<close>

theorem stage2_keeps_rows:
  "map joined (stage2 U (stage1 U df_price df_index) df_format) = stage1 U df_price df_index
   \<and> length (reconcile U df_format df_index df_price) = length (stage1 U df_price df_index)"
proof
  show "map joined (stage2 U (stage1 U df_price df_index) df_format)
          = stage1 U df_price df_index"
    by (simp add: stage2_rows o_def if_distrib map_idI cong: if_cong)
  show "length (reconcile U df_format df_index df_price) = length (stage1 U df_price df_index)"
    by (simp add: reconcile_def stage2_rows)
qed

lemma length_stage1:
  "length (stage1 U df_price df_index) =
     (\<Sum>p\<leftarrow>df_price. length (filter (\<lambda>i. func_code i = code_prefix p) df_index))"
  by (simp add: stage1_def length_concat o_def)

lemma length_filter_distinct_key:
  "distinct (map f xs) \<Longrightarrow> length (filter (\<lambda>x. f x = k) xs) \<le> 1"
  by (induction xs) (auto simp: filter_empty_conv image_iff)

lemma sum_list_le_length:
  "(\<And>x. x \<in> set xs \<Longrightarrow> f x \<le> (1::nat)) \<Longrightarrow> (\<Sum>x\<leftarrow>xs. f x) \<le> length xs"
proof (induction xs)
  case Nil
  then show ?case by simp
next
  case (Cons a xs)
  have "f a \<le> 1" using Cons.prems by simp
  moreover have "(\<Sum>x\<leftarrow>xs. f x) \<le> length xs" using Cons by simp
  ultimately show ?case by simp
qed

text \<open>
  C3 as stated fails: one price row whose code is carried by two rows of the expanded
  table gives two stage-1 rows.
\<close>

theorem stage1_expands_counterexample:
  "\<not> length (stage1 unicode_excerpt
                 [\<lparr>code_prefix = [0x41::nat], category_name = PyStr [0x46], rest = ()\<rparr>]
                 [\<lparr>func_code = [0x41], name = PyStr [0x78]\<rparr>,
                  \<lparr>func_code = [0x41], name = PyStr [0x79]\<rparr>])
      \<le> length [\<lparr>code_prefix = [0x41::nat], category_name = PyStr [0x46], rest = ()\<rparr>]"
  by (simp add: stage1_def)

text \<open>
  C3, amended: the stage-1 result has one row for every pair of a price row and an
  expanded row with equal codes; when no code occurs twice in the expanded table it has
  at most as many rows as the price table.
\<close>

theorem stage1_row_count:
  "length (stage1 U df_price df_index) =
     (\<Sum>p\<leftarrow>df_price. length (filter (\<lambda>i. func_code i = code_prefix p) df_index))
   \<and> (distinct (map func_code df_index) \<longrightarrow>
        length (stage1 U df_price df_index) \<le> length df_price)"
proof (intro conjI impI)
  show "length (stage1 U df_price df_index) =
     (\<Sum>p\<leftarrow>df_price. length (filter (\<lambda>i. func_code i = code_prefix p) df_index))"
    by (rule length_stage1)
  assume d: "distinct (map func_code df_index)"
  have "(\<Sum>p\<leftarrow>df_price. length (filter (\<lambda>i. func_code i = code_prefix p) df_index))
          \<le> length df_price"
    by (rule sum_list_le_length) (rule length_filter_distinct_key [OF d])
  then show "length (stage1 U df_price df_index) \<le> length df_price"
    by (simp add: length_stage1)
qed

theorem stage1_row_count_witness:
  "distinct (map func_code [\<lparr>func_code = [0x41::nat], name = PyStr [0x78]\<rparr>,
                            \<lparr>func_code = [0x42], name = PyStr [0x79]\<rparr>])
   \<and> length (stage1 unicode_excerpt
                 [\<lparr>code_prefix = [0x41::nat], category_name = PyStr [0x46], rest = ()\<rparr>,
                  \<lparr>code_prefix = [0x43], category_name = PyStr [0x46], rest = ()\<rparr>]
                 [\<lparr>func_code = [0x41], name = PyStr [0x78]\<rparr>,
                  \<lparr>func_code = [0x42], name = PyStr [0x79]\<rparr>]) = 1"
  using stage1_row_count
    [of unicode_excerpt
        "[\<lparr>code_prefix = [0x41::nat], category_name = PyStr [0x46], rest = ()\<rparr>,
          \<lparr>code_prefix = [0x43], category_name = PyStr [0x46], rest = ()\<rparr>]"
        "[\<lparr>func_code = [0x41], name = PyStr [0x78]\<rparr>,
          \<lparr>func_code = [0x42], name = PyStr [0x79]\<rparr>]"]
  by simp

lemma sum_list_indicator:
  "sum_list (map (\<lambda>l. if P l then 1 else 0) xs) = length (filter P xs)"
  by (induction xs) simp_all

lemma sum_list_concat_map:
  "sum_list (map f (concat (map g xs))) = (\<Sum>x\<leftarrow>xs. sum_list (map f (g x)))"
  by (induction xs) simp_all

lemma flag_stage2:
  "map flag_row (stage2 U result df_format) =
     map (\<lambda>l. \<lparr>source = price l,
                change_flag =
                  (if category_name_clean l \<in> clean_str U ` set df_format then 1 else 0)\<rparr>)
         result"
  unfolding stage2_rows map_map by (rule map_cong [OF refl]) (simp add: flag_row_def)

lemma reconcile_rows:
  "reconcile U df_format df_index df_price =
     concat (map (\<lambda>p.
       map (\<lambda>i. \<lparr>source = p,
                  change_flag =
                    (if clean_str U (category_name p) \<in> clean_str U ` set df_format
                     then 1 else 0)\<rparr>)
           (filter (\<lambda>i. func_code i = code_prefix p) df_index)) df_price)"
  by (simp add: reconcile_def flag_stage2 stage1_def map_concat o_def)

lemma stage1_clean:
  "l \<in> set (stage1 U df_price df_index) \<Longrightarrow>
     category_name_clean l = clean_str U (category_name (price l))"
  by (auto simp: stage1_def)

text \<open>
  C1.  The valid-category frame holds exactly the normalised category values of the
  format table, each once.  The output has one row for every pair of a price row and an
  expanded row with equal codes, and the flag of the row is 1 exactly when the
  normalised category name of its price row is the normalised form of some category of
  the format table, and 0 otherwise.  Row by row, the indicator of the stage-2 merge is
  \<open>both\<close> in the first case and \<open>left_only\<close> in the second, and the flag is 1 exactly for
  \<open>both\<close>.  Every flag is 0 or 1, and the flags add up to the number of stage-1 rows with
  a valid normalised category name.
\<close>

theorem change_flag_characterisation:
  "set (df_format_valid U df_format) = clean_str U ` set df_format
   \<and> distinct (df_format_valid U df_format)
   \<and> reconcile U df_format df_index df_price =
     concat (map (\<lambda>p.
       map (\<lambda>i. \<lparr>source = p,
                  change_flag =
                    (if clean_str U (category_name p) \<in> clean_str U ` set df_format
                     then 1 else 0)\<rparr>)
           (filter (\<lambda>i. func_code i = code_prefix p) df_index)) df_price)
   \<and> map merge_ind (stage2 U (stage1 U df_price df_index) df_format) =
     map (\<lambda>l. if clean_str U (category_name (price l)) \<in> clean_str U ` set df_format
               then both else left_only) (stage1 U df_price df_index)
   \<and> map change_flag (reconcile U df_format df_index df_price) =
     map (\<lambda>m. if merge_ind m = both then 1 else 0)
         (stage2 U (stage1 U df_price df_index) df_format)
   \<and> set (map change_flag (reconcile U df_format df_index df_price)) \<subseteq> {0, 1}
   \<and> sum_list (map change_flag (reconcile U df_format df_index df_price)) =
     length (filter (\<lambda>l. clean_str U (category_name (price l)) \<in> clean_str U ` set df_format)
                    (stage1 U df_price df_index))
   \<and> sum_list (map change_flag (reconcile U df_format df_index df_price)) =
     (\<Sum>p\<leftarrow>df_price.
        if clean_str U (category_name p) \<in> clean_str U ` set df_format
        then length (filter (\<lambda>i. func_code i = code_prefix p) df_index) else 0)"
proof -
  let ?V = "clean_str U ` set df_format"
  let ?r = "stage1 U df_price df_index"
  let ?out = "reconcile U df_format df_index df_price"
  have v: "set (df_format_valid U df_format) = ?V"
    by (simp add: df_format_valid_def set_drop_duplicates)
  have d: "distinct (df_format_valid U df_format)"
    by (simp add: df_format_valid_def distinct_drop_duplicates)
  have rows: "?out =
     concat (map (\<lambda>p.
       map (\<lambda>i. \<lparr>source = p,
                  change_flag = (if clean_str U (category_name p) \<in> ?V then 1 else 0)\<rparr>)
           (filter (\<lambda>i. func_code i = code_prefix p) df_index)) df_price)"
    by (rule reconcile_rows)
  have "map merge_ind (stage2 U ?r df_format) =
          map (\<lambda>l. if category_name_clean l \<in> ?V then both else left_only) ?r"
    by (simp add: stage2_rows o_def if_distrib cong: if_cong)
  also have "\<dots> = map (\<lambda>l. if clean_str U (category_name (price l)) \<in> ?V
                          then both else left_only) ?r"
    by (rule map_cong [OF refl]) (simp add: stage1_clean)
  finally have ind: "map merge_ind (stage2 U ?r df_format) =
      map (\<lambda>l. if clean_str U (category_name (price l)) \<in> ?V then both else left_only) ?r" .
  have flag: "map change_flag ?out =
               map (\<lambda>m. if merge_ind m = both then 1 else 0) (stage2 U ?r df_format)"
    by (simp add: reconcile_def flag_row_def o_def)
  have flags: "map change_flag ?out =
               map (\<lambda>l. if clean_str U (category_name (price l)) \<in> ?V then 1 else 0) ?r"
  proof -
    have "map change_flag ?out =
            map (\<lambda>k. if k = both then 1 else 0) (map merge_ind (stage2 U ?r df_format))"
      unfolding flag by (simp add: o_def)
    also have "\<dots> = map (\<lambda>l. if clean_str U (category_name (price l)) \<in> ?V then 1 else 0) ?r"
      unfolding ind map_map by (rule map_cong [OF refl]) simp
    finally show ?thesis .
  qed
  have range: "set (map change_flag ?out) \<subseteq> {0, 1}"
    unfolding flags by auto
  have total: "sum_list (map change_flag ?out) =
               length (filter (\<lambda>l. clean_str U (category_name (price l)) \<in> ?V) ?r)"
    unfolding flags by (rule sum_list_indicator)
  have per_price: "sum_list (map change_flag ?out) =
     (\<Sum>p\<leftarrow>df_price. if clean_str U (category_name p) \<in> ?V
        then length (filter (\<lambda>i. func_code i = code_prefix p) df_index) else 0)"
    unfolding rows sum_list_concat_map
    by (rule arg_cong [where f = sum_list], rule map_cong [OF refl])
       (simp add: o_def sum_list_triv)
  from v d rows ind flag range total per_price show ?thesis by blast
qed

section \<open>Properties of the normaliser\<close>

lemma lower_cp_idem: "lower_cp_excerpt (lower_cp_excerpt c) = lower_cp_excerpt c"
  by (auto simp: lower_cp_excerpt_def capital_carons_def)

lemma isspace_lower_cp: "isspace (lower_cp_excerpt c) = isspace c"
  by (auto simp: lower_cp_excerpt_def capital_carons_def isspace_def)

lemma lower_cp_space: "lower_cp_excerpt 0x20 = 0x20"
  by (simp add: lower_cp_excerpt_def capital_carons_def)

lemma lower_excerpt_idem: "lower_excerpt (lower_excerpt s) = lower_excerpt s"
  by (simp add: lower_excerpt_def lower_cp_idem)

lemma dropWhile_isspace_lower_excerpt:
  "dropWhile isspace (lower_excerpt s) = lower_excerpt (dropWhile isspace s)"
  by (induction s) (simp_all add: lower_excerpt_def isspace_lower_cp)

lemma strip_lower_excerpt: "strip (lower_excerpt s) = lower_excerpt (strip s)"
  using dropWhile_isspace_lower_excerpt
  by (simp add: strip_def lower_excerpt_def rev_map)

lemma re_sub_ws_lower_excerpt: "re_sub_ws (lower_excerpt s) = lower_excerpt (re_sub_ws s)"
proof (induction s rule: re_sub_ws.induct)
  case 1
  then show ?case by (simp add: lower_excerpt_def)
next
  case (2 c cs)
  show ?case
  proof (cases "isspace c")
    case True
    have "re_sub_ws (lower_excerpt (c # cs)) = 0x20 # re_sub_ws (dropWhile isspace (lower_excerpt cs))"
      using True by (simp add: lower_excerpt_def isspace_lower_cp)
    also have "\<dots> = 0x20 # lower_excerpt (re_sub_ws (dropWhile isspace cs))"
      using 2(1) [OF True] by (simp add: dropWhile_isspace_lower_excerpt)
    finally show ?thesis using True by (simp add: lower_excerpt_def lower_cp_space)
  next
    case False
    then show ?thesis using 2(2) by (simp add: lower_excerpt_def isspace_lower_cp)
  qed
qed

lemma re_sub_ws_Nil_iff: "re_sub_ws s = [] \<longleftrightarrow> s = []"
  by (cases s) simp_all

lemma hd_re_sub_ws: "s \<noteq> [] \<Longrightarrow> \<not> isspace (hd s) \<Longrightarrow> hd (re_sub_ws s) = hd s"
  by (cases s) simp_all

lemma dropWhile_hd: "s = [] \<or> \<not> P (hd s) \<Longrightarrow> dropWhile P s = s"
  by (cases s) auto

lemma hd_dropWhile_not: "dropWhile P s = [] \<or> \<not> P (hd (dropWhile P s))"
  by (metis hd_dropWhile)

lemma dropWhile_re_sub_ws:
  "s = [] \<or> \<not> isspace (hd s) \<Longrightarrow> dropWhile isspace (re_sub_ws s) = re_sub_ws s"
  by (cases s) auto

lemma re_sub_ws_idem: "re_sub_ws (re_sub_ws s) = re_sub_ws s"
proof (induction s rule: re_sub_ws.induct)
  case 1
  then show ?case by simp
next
  case (2 c cs)
  show ?case
  proof (cases "isspace c")
    case True
    have sp: "isspace 0x20" by (simp add: isspace_def)
    have "dropWhile isspace (re_sub_ws (dropWhile isspace cs)) = re_sub_ws (dropWhile isspace cs)"
      by (rule dropWhile_re_sub_ws) (rule hd_dropWhile_not)
    then show ?thesis using True 2(1) sp by simp
  next
    case False
    then show ?thesis using 2(2) by simp
  qed
qed

lemma last_re_sub_ws:
  "s \<noteq> [] \<Longrightarrow> \<not> isspace (last s) \<Longrightarrow> last (re_sub_ws s) = last s"
proof (induction s rule: re_sub_ws.induct)
  case 1
  then show ?case by simp
next
  case (2 c cs)
  show ?case
  proof (cases "isspace c")
    case True
    let ?d = "dropWhile isspace cs"
    have ne: "cs \<noteq> []" using 2(4) True by auto
    then have lc: "\<not> isspace (last cs)" using 2(4) by simp
    have d: "?d \<noteq> []"
    proof
      assume "?d = []"
      then have "\<forall>x\<in>set cs. isspace x" by simp
      then show False using ne lc last_in_set by blast
    qed
    have "cs = takeWhile isspace cs @ ?d" by simp
    then have l: "last ?d = last cs" using d by (metis last_appendR)
    have "last (re_sub_ws ?d) = last ?d"
      using 2(1) [OF True d] l lc by simp
    moreover have "re_sub_ws ?d \<noteq> []" using d by (simp add: re_sub_ws_Nil_iff)
    moreover have "re_sub_ws (c # cs) = 0x20 # re_sub_ws ?d" using True by simp
    ultimately show ?thesis using l ne by simp
  next
    case False
    show ?thesis
    proof (cases cs)
      case Nil
      then show ?thesis using False by simp
    next
      case (Cons a as)
      then have "last (re_sub_ws cs) = last cs" using 2(2) [OF False] 2(4) by simp
      moreover have "re_sub_ws cs \<noteq> []" using Cons by (simp add: re_sub_ws_Nil_iff)
      ultimately show ?thesis using False Cons by simp
    qed
  qed
qed

lemma strip_tidy:
  "s = [] \<or> (\<not> isspace (hd s) \<and> \<not> isspace (last s)) \<Longrightarrow> strip s = s"
  by (auto simp: strip_def dropWhile_hd hd_rev)

lemma strip_ends: "strip s = [] \<or> (\<not> isspace (hd (strip s)) \<and> \<not> isspace (last (strip s)))"
proof (cases "strip s = []")
  case True
  then show ?thesis by simp
next
  case False
  let ?d = "dropWhile isspace s"
  let ?e = "dropWhile isspace (rev ?d)"
  have e: "?e \<noteq> []" using False by (simp add: strip_def)
  have "\<not> isspace (hd ?e)" using e by (metis hd_dropWhile)
  then have l: "\<not> isspace (last (strip s))" using e by (simp add: strip_def last_rev)
  have dne: "?d \<noteq> []"
  proof
    assume "?d = []"
    then have "?e = []" by (simp only: rev.simps dropWhile.simps)
    with e show False by blast
  qed
  have hd: "\<not> isspace (hd ?d)" using dne by (metis hd_dropWhile)
  have "rev ?d = takeWhile isspace (rev ?d) @ ?e" by simp
  then have "?d = rev ?e @ rev (takeWhile isspace (rev ?d))"
    by (metis rev_append rev_rev_ident)
  then have "hd ?d = hd (rev ?e)" using e by (metis hd_append2 rev_is_Nil_conv)
  then show ?thesis using hd l by (simp add: strip_def)
qed

lemma strip_re_sub_ws_strip: "strip (re_sub_ws (strip s)) = re_sub_ws (strip s)"
proof (cases "strip s = []")
  case True
  have "strip [] = []" by (simp add: strip_def)
  then show ?thesis using True by simp
next
  case False
  with strip_ends [of s] have "\<not> isspace (hd (strip s))" "\<not> isspace (last (strip s))" by auto
  then show ?thesis using False
    by (intro strip_tidy) (simp add: hd_re_sub_ws last_re_sub_ws re_sub_ws_Nil_iff)
qed

lemma decompose_ascii: "c < 128 \<Longrightarrow> decompose_excerpt c = [c]"
  by (simp add: decompose_excerpt_def caron_pairs_def)

lemma concat_decompose_ascii:
  "\<forall>c\<in>set s. c < 128 \<Longrightarrow> concat (map decompose_excerpt s) = s"
  by (induction s) (simp_all add: decompose_ascii)

lemma compose_no_caron: "0x30C \<notin> set s \<Longrightarrow> compose_excerpt s = s"
  by (induction s rule: compose_excerpt.induct) auto

lemma nfkc_excerpt_ascii: "\<forall>c\<in>set s. c < 128 \<Longrightarrow> nfkc_excerpt s = s"
proof -
  assume a: "\<forall>c\<in>set s. c < 128"
  then have "0x30C \<notin> set s" by auto
  with a show ?thesis by (simp add: nfkc_excerpt_def concat_decompose_ascii compose_no_caron)
qed

lemma lower_excerpt_ascii: "\<forall>c\<in>set s. c < 128 \<Longrightarrow> lower_excerpt s = map ascii_lower s"
  unfolding lower_excerpt_def
  by (rule map_cong [OF refl]) (auto simp: lower_cp_excerpt_def ascii_lower_def capital_carons_def)

text \<open>The excerpt has the properties that the statements below ask of the library.\<close>

lemma excerpt_acts_on_ascii: "acts_on_ascii unicode_excerpt"
  by (simp add: acts_on_ascii_def unicode_excerpt_def nfkc_excerpt_ascii lower_excerpt_ascii)

lemma excerpt_lower_laws: "lower_laws unicode_excerpt"
proof -
  have "lower_excerpt [] = []" by (simp add: lower_excerpt_def)
  then show ?thesis
    by (simp add: lower_laws_def unicode_excerpt_def lower_excerpt_idem strip_lower_excerpt
        re_sub_ws_lower_excerpt)
qed

lemma set_strip: "set (strip s) \<subseteq> set s"
proof -
  have "set (strip s) \<subseteq> set (dropWhile isspace s)"
    unfolding strip_def using set_dropWhileD by fastforce
  also have "\<dots> \<subseteq> set s" using set_dropWhileD by fastforce
  finally show ?thesis .
qed

lemma set_re_sub_ws: "set (re_sub_ws s) \<subseteq> insert 0x20 (set s)"
proof (induction s rule: re_sub_ws.induct)
  case 1
  then show ?case by simp
next
  case (2 c cs)
  show ?case
  proof (cases "isspace c")
    case True
    have "set (dropWhile isspace cs) \<subseteq> set cs" using set_dropWhileD by fastforce
    then show ?thesis using True 2(1) by auto
  next
    case False
    then show ?thesis using 2(2) by auto
  qed
qed

lemma ascii_lower_ascii: "c < 128 \<Longrightarrow> ascii_lower c < 128"
  by (simp add: ascii_lower_def)

lemma clean_str_ascii:
  assumes "acts_on_ascii U" "\<forall>c\<in>set s. c < 128"
  shows "\<forall>c\<in>set (clean_str U (PyStr s)). c < 128"
proof -
  have n: "normalize_nfkc U s = s" using assms by (simp add: acts_on_ascii_def)
  have "set (re_sub_ws (strip s)) \<subseteq> insert 0x20 (set s)"
    using set_re_sub_ws [of "strip s"] set_strip [of s] by auto
  then have r: "\<forall>c\<in>set (re_sub_ws (strip s)). c < 128" using assms(2) by auto
  then have "str_lower U (re_sub_ws (strip s)) = map ascii_lower (re_sub_ws (strip s))"
    using assms(1) by (simp add: acts_on_ascii_def)
  then show ?thesis using r by (auto simp: clean_str_def n ascii_lower_ascii)
qed

lemma clean_str_again:
  assumes "lower_laws U" "normalize_nfkc U (clean_str U v) = clean_str U v"
  shows "clean_str U (PyStr (clean_str U v)) = clean_str U v"
proof (cases "isna v")
  case True
  then have e: "clean_str U v = []" by (simp add: clean_str_def)
  then have "normalize_nfkc U [] = []" using assms(2) by simp
  moreover have "str_lower U [] = []" using assms(1) by (simp add: lower_laws_def)
  ultimately have "clean_str U (PyStr []) = []"
    by (simp add: clean_str_def strip_def)
  then show ?thesis using e by simp
next
  case False
  define z where "z = re_sub_ws (strip (normalize_nfkc U (py_str v)))"
  have r: "clean_str U v = str_lower U z" using False by (simp add: clean_str_def z_def)
  have sz: "strip z = z" unfolding z_def by (rule strip_re_sub_ws_strip)
  have cz: "re_sub_ws z = z" unfolding z_def by (rule re_sub_ws_idem)
  have l1: "str_lower U (str_lower U s) = str_lower U s" for s
    using assms(1) by (simp add: lower_laws_def)
  have l2: "strip (str_lower U s) = str_lower U (strip s)" for s
    using assms(1) by (simp add: lower_laws_def)
  have l3: "re_sub_ws (str_lower U s) = str_lower U (re_sub_ws s)" for s
    using assms(1) by (simp add: lower_laws_def)
  have "clean_str U (PyStr (str_lower U z))
          = str_lower U (re_sub_ws (strip (normalize_nfkc U (str_lower U z))))"
    by (simp add: clean_str_def)
  also have "\<dots> = str_lower U (re_sub_ws (strip (str_lower U z)))" using assms(2) r by simp
  also have "\<dots> = str_lower U (str_lower U (re_sub_ws (strip z)))"
    by (simp only: l2 l3)
  also have "\<dots> = str_lower U z" by (simp only: l1 sz cz)
  finally show ?thesis using r by simp
qed

lemma digits_range: "\<forall>c\<in>set (digits n). 48 \<le> c \<and> c \<le> 57"
proof (induction n rule: digits.induct)
  case (1 n)
  show ?case
  proof (cases "n < 10")
    case True
    then show ?thesis by (subst digits.simps) simp
  next
    case False
    have "n mod 10 < 10" by simp
    then have "48 + n mod 10 \<le> 57" by linarith
    then show ?thesis using False 1 by (subst digits.simps) simp
  qed
qed

lemma digits_not_Nil: "digits n \<noteq> []"
  by (subst digits.simps) simp

lemma str_int_range: "\<forall>c\<in>set (str_int i). c = 45 \<or> (48 \<le> c \<and> c \<le> 57)"
  using digits_range by (auto simp: str_int_def)

lemma str_int_not_Nil: "str_int i \<noteq> []"
  by (simp add: str_int_def digits_not_Nil)

lemma no_space_strip: "\<forall>c\<in>set s. \<not> isspace c \<Longrightarrow> strip s = s"
  by (rule strip_tidy) (cases s, auto)

lemma no_space_re_sub_ws: "\<forall>c\<in>set s. \<not> isspace c \<Longrightarrow> re_sub_ws s = s"
  by (induction s) auto

lemma clean_str_int:
  assumes "acts_on_ascii U"
  shows "clean_str U (PyInt i) = str_int i"
proof -
  let ?s = "str_int i"
  have r: "\<forall>c\<in>set ?s. c = 45 \<or> (48 \<le> c \<and> c \<le> 57)" by (rule str_int_range)
  then have a: "\<forall>c\<in>set ?s. c < 128" by auto
  have sp: "\<forall>c\<in>set ?s. \<not> isspace c" using r by (auto simp: isspace_def)
  have n: "normalize_nfkc U ?s = ?s" using assms a by (simp add: acts_on_ascii_def)
  have "str_lower U ?s = map ascii_lower ?s" using assms a by (simp add: acts_on_ascii_def)
  also have "\<dots> = ?s" using r by (intro map_idI) (auto simp: ascii_lower_def)
  finally have lo: "str_lower U ?s = ?s" .
  show ?thesis
    by (simp add: clean_str_def n no_space_strip [OF sp] no_space_re_sub_ws [OF sp] lo)
qed

text \<open>
  C5 as stated fails.  The capital J followed by the combining caron U+030C is stable
  under NFKC (there is no composed capital), its lower-case form is j followed by the
  caron, and NFKC composes that pair to U+01F0: the second normalisation differs from
  the first.  The string lies in the alphabet of the excerpt.
\<close>

theorem clean_str_not_idempotent_counterexample:
  "list_all alphabet [0x4A, 0x30C]
   \<and> clean_str unicode_excerpt (PyStr [0x4A, 0x30C]) = [0x6A, 0x30C]
   \<and> clean_str unicode_excerpt (PyStr (clean_str unicode_excerpt (PyStr [0x4A, 0x30C])))
       = [0x1F0]
   \<and> clean_str unicode_excerpt (PyStr (clean_str unicode_excerpt (PyStr [0x4A, 0x30C])))
       \<noteq> clean_str unicode_excerpt (PyStr [0x4A, 0x30C])"
  by (simp add: clean_str_def unicode_excerpt_def nfkc_excerpt_def decompose_excerpt_def caron_pairs_def strip_def isspace_def lower_excerpt_def lower_cp_excerpt_def capital_carons_def alphabet_def)

text \<open>
  C5, amended: normalising twice gives the same as normalising once for every input
  whose normalised form is unchanged by NFKC; every ASCII string is such an input.  This
  holds for every Unicode library in which lower-casing is idempotent, keeps the empty
  string and commutes with \<open>strip\<close> and with the collapsing of white space, and, for the
  ASCII part, which leaves ASCII to NFKC and lower-cases it letter by letter.
\<close>

theorem clean_str_idempotent_when_stable:
  "(lower_laws U \<and> normalize_nfkc U (clean_str U v) = clean_str U v \<longrightarrow>
      clean_str U (PyStr (clean_str U v)) = clean_str U v)
   \<and> (lower_laws U \<and> acts_on_ascii U \<and> (\<forall>c\<in>set s. c < 128) \<longrightarrow>
      clean_str U (PyStr (clean_str U (PyStr s))) = clean_str U (PyStr s))"
proof (intro conjI impI)
  assume "lower_laws U \<and> normalize_nfkc U (clean_str U v) = clean_str U v"
  then show "clean_str U (PyStr (clean_str U v)) = clean_str U v"
    by (simp add: clean_str_again)
next
  assume a: "lower_laws U \<and> acts_on_ascii U \<and> (\<forall>c\<in>set s. c < 128)"
  then have l: "lower_laws U" and u: "acts_on_ascii U" and s: "\<forall>c\<in>set s. c < 128"
    by simp_all
  have "\<forall>c\<in>set (clean_str U (PyStr s)). c < 128" using u s by (rule clean_str_ascii)
  then have "normalize_nfkc U (clean_str U (PyStr s)) = clean_str U (PyStr s)"
    using u unfolding acts_on_ascii_def by blast
  with l show "clean_str U (PyStr (clean_str U (PyStr s))) = clean_str U (PyStr s)"
    by (rule clean_str_again)
qed

theorem clean_str_idempotent_when_stable_witness:
  "list_all alphabet [0xFF21, 0x3000, 0x3000, 0x42, 0x20]
   \<and> nfkc_excerpt (clean_str unicode_excerpt (PyStr [0xFF21, 0x3000, 0x3000, 0x42, 0x20]))
       = clean_str unicode_excerpt (PyStr [0xFF21, 0x3000, 0x3000, 0x42, 0x20])
   \<and> clean_str unicode_excerpt (PyStr [0xFF21, 0x3000, 0x3000, 0x42, 0x20]) = [0x61, 0x20, 0x62]
   \<and> clean_str unicode_excerpt
         (PyStr (clean_str unicode_excerpt (PyStr [0xFF21, 0x3000, 0x3000, 0x42, 0x20])))
       = [0x61, 0x20, 0x62]
   \<and> list_all (\<lambda>c. c < (128::nat)) [0x20, 0x41, 0x09, 0x0A, 0x62]
   \<and> clean_str unicode_excerpt (PyStr [0x20, 0x41, 0x09, 0x0A, 0x62]) = [0x61, 0x20, 0x62]
   \<and> clean_str unicode_excerpt
         (PyStr (clean_str unicode_excerpt (PyStr [0x20, 0x41, 0x09, 0x0A, 0x62])))
       = [0x61, 0x20, 0x62]"
  using clean_str_idempotent_when_stable
    [of unicode_excerpt "PyStr [0xFF21, 0x3000, 0x3000, 0x42, 0x20]"
        "[0x20, 0x41, 0x09, 0x0A, 0x62]"]
    excerpt_lower_laws excerpt_acts_on_ascii
  by (simp add: clean_str_def unicode_excerpt_def nfkc_excerpt_def decompose_excerpt_def caron_pairs_def strip_def isspace_def lower_excerpt_def lower_cp_excerpt_def capital_carons_def alphabet_def)

text \<open>
  C8 as stated fails for a number that is not NaN: \<open>str\<close> turns it into its digits, and the
  digits are what the normaliser returns.
\<close>

theorem clean_str_number_counterexample: "clean_str unicode_excerpt (PyInt 5) \<noteq> []"
  by (simp add: clean_str_def unicode_excerpt_def nfkc_excerpt_def decompose_excerpt_def caron_pairs_def strip_def isspace_def lower_excerpt_def lower_cp_excerpt_def capital_carons_def str_int_def digits.simps [of 5])

text \<open>
  C8, amended: the NaN-like inputs (\<open>None\<close>, \<open>NaN\<close>) give the empty string; an integer
  gives its decimal text, which is never empty; neither raises.  The integer part holds
  for every Unicode library that leaves ASCII to NFKC and lower-cases it letter by
  letter.
\<close>

theorem clean_str_non_string:
  "(isna v \<longrightarrow> clean_str U v = [])
   \<and> (acts_on_ascii U \<longrightarrow> clean_str U (PyInt i) = str_int i)
   \<and> str_int i \<noteq> []"
proof (intro conjI impI)
  assume "isna v"
  then show "clean_str U v = []" by (simp add: clean_str_def)
next
  assume "acts_on_ascii U"
  then show "clean_str U (PyInt i) = str_int i" by (rule clean_str_int)
next
  show "str_int i \<noteq> []" by (rule str_int_not_Nil)
qed

theorem clean_str_non_string_witness:
  "isna PyNaN \<and> clean_str unicode_excerpt PyNaN = []
   \<and> clean_str unicode_excerpt (PyInt 5) = [0x35]"
  using clean_str_non_string [of PyNaN unicode_excerpt 5] excerpt_acts_on_ascii
  by (simp add: str_int_def digits.simps [of 5])

section \<open>Properties of the exact search stage\<close>

lemma pattern_compare_percent: "pattern_compare [0x25] t"
  by (induction t) simp_all

lemma pattern_compare_skip: "pattern_compare q t \<Longrightarrow> pattern_compare (0x25 # q) t"
  by (cases t) simp_all

lemma pattern_compare_drop:
  "pattern_compare (0x25 # q) t \<Longrightarrow> pattern_compare (0x25 # q) (u @ t)"
  by (induction u) simp_all

lemma pattern_compare_ci_prefix:
  "list_all2 (\<lambda>k c. sql_lower k = sql_lower c) kw w \<Longrightarrow> pattern_compare (kw @ [0x25]) (w @ v)"
proof (induction kw w rule: list_all2_induct)
  case Nil
  then show ?case
    using pattern_compare_percent by simp
next
  case (Cons k kw c w)
  then show ?case
    using pattern_compare_skip [of "kw @ [0x25]" "w @ v"] by simp
qed

lemma ci_substring_like:
  assumes "ci_substring kw t"
  shows "pattern_compare (0x25 # kw @ [0x25]) t"
proof -
  from assms obtain ps ss where "map sql_lower t = ps @ map sql_lower kw @ ss"
    by (auto simp: ci_substring_def sublist_def)
  then have "\<exists>us vs. t = us @ vs \<and> ps = map sql_lower us
      \<and> map sql_lower kw @ ss = map sql_lower vs"
    by (simp only: map_eq_append_conv)
  then obtain u r where tu: "t = u @ r" and r: "map sql_lower kw @ ss = map sql_lower r"
    by blast
  from r have "\<exists>us vs. r = us @ vs \<and> map sql_lower kw = map sql_lower us
      \<and> ss = map sql_lower vs"
    by (simp only: append_eq_map_conv)
  then obtain w v where rw: "r = w @ v" and w: "map sql_lower w = map sql_lower kw"
    by metis
  have t: "t = u @ w @ v" using tu rw by simp
  from w have "list_all2 (\<lambda>k c. sql_lower k = sql_lower c) kw w"
    by (metis (mono_tags, lifting) length_map list_all2_conv_all_nth nth_map)
  then have "pattern_compare (kw @ [0x25]) (w @ v)" by (rule pattern_compare_ci_prefix)
  then have "pattern_compare (0x25 # kw @ [0x25]) (w @ v)" by (rule pattern_compare_skip)
  then show ?thesis unfolding t by (rule pattern_compare_drop)
qed

lemma sublist_ci_substring: "sublist kw t \<Longrightarrow> ci_substring kw t"
  unfolding ci_substring_def sublist_def by (metis map_append)

lemma like_percent_split:
  "pattern_compare (0x25 # q) t \<Longrightarrow> \<exists>u w. t = u @ w \<and> pattern_compare q w"
proof (induction t)
  case Nil
  then show ?case by simp
next
  case (Cons c t)
  from Cons.prems have "pattern_compare q (c # t) \<or> pattern_compare (0x25 # q) t" by simp
  then show ?case
  proof
    assume "pattern_compare q (c # t)"
    then show ?thesis by (metis append_Nil)
  next
    assume "pattern_compare (0x25 # q) t"
    then obtain u w where "t = u @ w" "pattern_compare q w" using Cons.IH by blast
    then show ?thesis by (metis append_Cons)
  qed
qed

lemma like_plain_prefix:
  "0x25 \<notin> set kw \<Longrightarrow> 0x5F \<notin> set kw \<Longrightarrow> pattern_compare (kw @ [0x25]) w \<Longrightarrow>
     \<exists>w1 v. w = w1 @ v \<and> map sql_lower w1 = map sql_lower kw"
proof (induction kw arbitrary: w)
  case Nil
  then show ?case by simp
next
  case (Cons k kw)
  show ?case
  proof (cases w)
    case Nil
    then show ?thesis using Cons.prems by simp
  next
    case (Cons c w')
    with Cons.prems have k: "sql_lower k = sql_lower c" and r: "pattern_compare (kw @ [0x25]) w'"
      by auto
    from Cons.IH [OF _ _ r] Cons.prems obtain w1 v where "w' = w1 @ v" "map sql_lower w1 = map sql_lower kw"
      by auto
    then have "w = (c # w1) @ v \<and> map sql_lower (c # w1) = map sql_lower (k # kw)"
      using Cons k by simp
    then show ?thesis by blast
  qed
qed

lemma like_plain_ci_substring:
  assumes "0x25 \<notin> set kw" "0x5F \<notin> set kw" "pattern_compare (0x25 # kw @ [0x25]) t"
  shows "ci_substring kw t"
proof -
  from like_percent_split [OF assms(3)] obtain u w where t: "t = u @ w"
    and w: "pattern_compare (kw @ [0x25]) w" by blast
  from like_plain_prefix [OF assms(1,2) w] obtain w1 v where
    "w = w1 @ v" "map sql_lower w1 = map sql_lower kw" by blast
  then have "map sql_lower t = map sql_lower u @ map sql_lower kw @ map sql_lower v"
    using t by simp
  then show ?thesis unfolding ci_substring_def sublist_def by blast
qed

lemma like_wild_text: "pattern_compare (kw @ [0x25]) (wild_text kw @ v)"
proof (induction kw)
  case Nil
  then show ?case using pattern_compare_percent by (simp add: wild_text_def)
next
  case (Cons k kw)
  have w: "wild_text (k # kw) = (if k = 0x25 then wild_text kw
            else (if k = 0x5F then 0x78 else k) # wild_text kw)"
    by (simp add: wild_text_def)
  show ?case
  proof (cases "k = 0x25")
    case True
    then show ?thesis using pattern_compare_skip [OF Cons] w by simp
  next
    case False
    then show ?thesis using Cons w by simp
  qed
qed

lemma sublist_same_length: "sublist xs ys \<Longrightarrow> length xs = length ys \<Longrightarrow> xs = ys"
  by (auto simp: sublist_def)

lemma wild_text_not_substring:
  assumes "0x25 \<in> set kw \<or> 0x5F \<in> set kw"
  shows "\<not> ci_substring kw (wild_text kw)"
proof
  assume c: "ci_substring kw (wild_text kw)"
  then have s: "sublist (map sql_lower kw) (map sql_lower (wild_text kw))"
    by (simp add: ci_substring_def)
  then have le: "length kw \<le> length (wild_text kw)"
    using sublist_length_le by fastforce
  have "length (wild_text kw) = length (filter (\<lambda>c. c \<noteq> 0x25) kw)"
    by (simp add: wild_text_def)
  with le have "length (filter (\<lambda>c. c \<noteq> 0x25) kw) = length kw"
    using length_filter_le [of "\<lambda>c. c \<noteq> 0x25" kw] by simp
  then have nop: "0x25 \<notin> set kw"
    by (metis (mono_tags, lifting) length_filter_less less_irrefl)
  then have f: "filter (\<lambda>c. c \<noteq> 0x25) kw = kw" by (auto simp: filter_id_conv)
  then have wt: "wild_text kw = map (\<lambda>c. if c = 0x5F then 0x78 else c) kw"
    by (simp add: wild_text_def)
  then have "map sql_lower kw = map sql_lower (wild_text kw)"
    using s by (intro sublist_same_length) simp_all
  then have "\<forall>c\<in>set kw. sql_lower c = sql_lower (if c = 0x5F then 0x78 else c)"
    unfolding wt by simp
  moreover from assms nop have "0x5F \<in> set kw" by simp
  ultimately have "sql_lower 0x5F = sql_lower 0x78" by fastforce
  then show False by (simp add: sql_lower_def)
qed


lemma takeWhile_no_nul: "0 \<notin> set s \<Longrightarrow> takeWhile (\<lambda>c. c \<noteq> 0) s = s"
  by (induction s) auto

lemma sql_like_no_nul:
  "0 \<notin> set kw \<Longrightarrow> 0 \<notin> set t \<Longrightarrow>
     sql_like (search_pattern kw) t = pattern_compare (0x25 # kw @ [0x25]) t"
proof -
  assume k: "0 \<notin> set kw" and t: "0 \<notin> set t"
  have p: "takeWhile (\<lambda>c. c \<noteq> 0) (search_pattern kw) = search_pattern kw"
    by (rule takeWhile_no_nul) (simp add: search_pattern_def k)
  have tt: "takeWhile (\<lambda>c. c \<noteq> 0) t = t"
    by (rule takeWhile_no_nul) (rule t)
  show ?thesis
    unfolding sql_like_def p tt by (simp add: search_pattern_def)
qed

lemma wild_text_no_nul: "0 \<notin> set kw \<Longrightarrow> 0 \<notin> set (wild_text kw)"
  by (auto simp: wild_text_def)

lemma sql_like_percent: "sql_like (search_pattern [0x25]) t"
proof -
  have "pattern_compare [0x25, 0x25, 0x25] u" for u
    by (intro pattern_compare_skip pattern_compare_percent)
  then show ?thesis by (simp add: sql_like_def search_pattern_def)
qed

lemma like_column_percent: "like_column c (search_pattern [0x25]) = (c \<noteq> None)"
  by (cases c) (simp_all add: sql_like_percent)

text \<open>
  C10 as stated fails in its example: a record whose name, size class and type class are
  all NULL is not matched by the keyword \<open>%\<close>, because LIKE on NULL is not true.
\<close>

theorem percent_null_record_counterexample:
  "direct_matches
     [\<lparr>code = Some [0x41], product_name = None, size_class = None, type_cls = None\<rparr>]
     [0x25] = Inr []"
  by (simp add: direct_matches_def search_pattern_def utf8_bytes_def)

text \<open>
  C10, amended.  For a keyword and a text without U+0000: when the keyword holds neither
  \<open>%\<close> nor \<open>_\<close>, the exact stage matches the text exactly when the text contains the
  keyword up to the case of ASCII letters; when it holds one of them, there is a text
  (\<open>wild_text\<close>) that is matched and does not contain the keyword, with or without regard
  to case.  The keyword \<open>%\<close> matches every text, so it selects every record with a name,
  size class or type class that is not NULL.
\<close>

theorem like_wildcards:
  "(0 \<notin> set keyword \<and> 0 \<notin> set text \<and> 0x25 \<notin> set keyword \<and> 0x5F \<notin> set keyword \<longrightarrow>
      sql_like (search_pattern keyword) text = ci_substring keyword text)
   \<and> (0 \<notin> set wild \<and> (0x25 \<in> set wild \<or> 0x5F \<in> set wild) \<longrightarrow>
        sql_like (search_pattern wild) (wild_text wild)
        \<and> \<not> ci_substring wild (wild_text wild)
        \<and> \<not> sublist wild (wild_text wild))
   \<and> sql_like (search_pattern [0x25]) text
   \<and> direct_matches conn [0x25] =
       Inr (filter (\<lambda>r. product_name r \<noteq> None \<or> size_class r \<noteq> None \<or> type_cls r \<noteq> None)
             conn)"
proof (intro conjI impI)
  assume a: "0 \<notin> set keyword \<and> 0 \<notin> set text \<and> 0x25 \<notin> set keyword \<and> 0x5F \<notin> set keyword"
  then have "sql_like (search_pattern keyword) text
               = pattern_compare (0x25 # keyword @ [0x25]) text"
    by (simp add: sql_like_no_nul)
  also have "\<dots> = ci_substring keyword text"
    using a like_plain_ci_substring ci_substring_like by blast
  finally show "sql_like (search_pattern keyword) text = ci_substring keyword text" .
next
  assume b: "0 \<notin> set wild \<and> (0x25 \<in> set wild \<or> 0x5F \<in> set wild)"
  have "pattern_compare (wild @ [0x25]) (wild_text wild @ [])" by (rule like_wild_text)
  then have "pattern_compare (0x25 # wild @ [0x25]) (wild_text wild)"
    using pattern_compare_skip by simp
  then show "sql_like (search_pattern wild) (wild_text wild)"
    using b by (simp add: sql_like_no_nul wild_text_no_nul)
  show n: "\<not> ci_substring wild (wild_text wild)"
    using b by (intro wild_text_not_substring) simp
  show "\<not> sublist wild (wild_text wild)"
    using n sublist_ci_substring by blast
next
  show "sql_like (search_pattern [0x25]) text" by (rule sql_like_percent)
next
  have "utf8_bytes (search_pattern [0x25]) = 3"
    by (simp add: utf8_bytes_def search_pattern_def)
  then show "direct_matches conn [0x25] =
       Inr (filter (\<lambda>r. product_name r \<noteq> None \<or> size_class r \<noteq> None \<or> type_cls r \<noteq> None)
             conn)"
    by (simp add: direct_matches_def like_column_percent)
qed

theorem like_wildcards_witness:
  "0 \<notin> set [0x61, 0x62::nat] \<and> 0 \<notin> set [0x78, 0x41, 0x42::nat]
   \<and> 0x25 \<notin> set [0x61, 0x62::nat] \<and> 0x5F \<notin> set [0x61, 0x62::nat]
   \<and> sql_like (search_pattern [0x61, 0x62]) [0x78, 0x41, 0x42]
   \<and> ci_substring [0x61, 0x62] [0x78, 0x41, 0x42]
   \<and> 0 \<notin> set [0x61, 0x5F, 0x63::nat] \<and> 0x5F \<in> set [0x61, 0x5F, 0x63::nat]
   \<and> wild_text [0x61, 0x5F, 0x63] = [0x61, 0x78, 0x63]
   \<and> sql_like (search_pattern [0x61, 0x5F, 0x63]) [0x61, 0x78, 0x63]
   \<and> \<not> sublist [0x61, 0x5F, 0x63::nat] [0x61, 0x78, 0x63]"
  using like_wildcards [of "[0x61, 0x62]" "[0x78, 0x41, 0x42]" "[0x61, 0x5F, 0x63]" "[]"]
  by (simp add: sql_like_def search_pattern_def sql_lower_def wild_text_def)

section \<open>Properties of search_products\<close>

text \<open>
  C7 as stated fails: with no match, \<open>search_products\<close> returns before it writes, so a
  file that did not exist still does not exist afterwards; no empty table is produced.
\<close>

theorem search_products_no_file_counterexample:
  "snd (search_products (\<lambda>q c. 0) [] [0x78] None) \<noteq> Some []"
  by (simp add: search_products_def fuzzy_search_product_def direct_matches_def
      fuzzy_stage_def process_extract_def)

text \<open>
  C7, amended: when the list of matched products is empty, \<open>search_products\<close> signals no
  error and leaves IndexSQL_find.csv as it was: it is not written, and a file of an
  earlier run stays.
\<close>

theorem search_products_empty:
  "fuzzy_search_product token_set_ratio conn keyword 40 = Inr [] \<Longrightarrow>
     search_products token_set_ratio conn keyword index_sql_find = (None, index_sql_find)"
  by (simp add: search_products_def)

theorem search_products_empty_witness:
  "fuzzy_search_product (\<lambda>q c. 0) [] [0x78] 40 = Inr []
   \<and> search_products (\<lambda>q c. 0) [] [0x78]
         (Some [\<lparr>record_of = \<lparr>code = Some [0x41], product_name = Some [0x79],
                                size_class = None, type_cls = None\<rparr>,
                  search_keyword = [0x79], reference_product = Some [0x79]\<rparr>])
       = (None, Some [\<lparr>record_of = \<lparr>code = Some [0x41], product_name = Some [0x79],
                                size_class = None, type_cls = None\<rparr>,
                  search_keyword = [0x79], reference_product = Some [0x79]\<rparr>])"
proof -
  have h: "fuzzy_search_product (\<lambda>q c. 0) [] [0x78] 40 = Inr []"
    by (simp add: fuzzy_search_product_def direct_matches_def
      fuzzy_stage_def process_extract_def)
  show ?thesis using h search_products_empty [OF h] by simp
qed

section \<open>Stage precedence in fuzzy_search_product\<close>






section \<open>Properties of the fuzzy stage\<close>









section \<open>Properties of the exception handlers\<close>

lemma check_columns_Some:
  "check_columns True f i p = Some e \<Longrightarrow>
     (e = missing_error name_df_format (missing_columns [col_category] f)
        \<and> missing_columns [col_category] f \<noteq> [])
   \<or> (e = missing_error name_df_index (missing_columns [col_name, col_func_code] i)
        \<and> missing_columns [col_name, col_func_code] i \<noteq> [])
   \<or> (e = missing_error name_df_price (missing_columns [col_code_prefix, col_category_name] p)
        \<and> missing_columns [col_code_prefix, col_category_name] p \<noteq> [])"
  by (auto simp: check_columns_def split: if_splits)

lemma check_columns_None:
  "check_columns inlined f i p = None \<longleftrightarrow>
     inlined \<and> col_category \<in> set (columns f)
     \<and> col_name \<in> set (columns i) \<and> col_func_code \<in> set (columns i)
     \<and> col_code_prefix \<in> set (columns p) \<and> col_category_name \<in> set (columns p)"
  by (auto simp: check_columns_def missing_columns_def)

lemma check_columns_before_312:
  "check_columns False f i p = Some key_error_df_format"
  by (simp add: check_columns_def)

text \<open>
  What \<open>HistoryDataSearch\<close> returns, case by case.  A missing input file gives no table and
  the file-missing message.  On Python 3.12 or later a failed column check gives no
  table and the data-column message, which names the frame and lists its missing
  columns.  Every exception of the \<open>try\<close> body that is a \<open>ValueError\<close> gives the data-column
  prefix with its own text, and one that is neither a \<open>FileNotFoundError\<close> nor a
  \<open>ValueError\<close> gives the generic prefix.  The three prefixes differ.  When the files
  are read, the column check passes, pandas accepts both merges and the table is
  written, the result is the reconciled table with the summary.
\<close>

lemma HistoryDataSearch_outcomes:
  "(read_files envA = Inl (Raise FileNotFoundError textA) \<longrightarrow>
      HistoryDataSearch U envA = (None, msg_file_missing @ textA))
   \<and> (inlined_comprehensions envB \<and> read_files envB = Inr (fB, iB, pB)
        \<and> check_columns True fB iB pB = Some eB \<longrightarrow>
      (\<exists>df_name missing. missing \<noteq> [] \<and>
         HistoryDataSearch U envB =
           (None, msg_column_error @ df_name @ lacks_columns @ repr_list missing)
         \<and> ((df_name = name_df_format \<and> missing = missing_columns [col_category] fB)
            \<or> (df_name = name_df_index \<and> missing = missing_columns [col_name, col_func_code] iB)
            \<or> (df_name = name_df_price
                \<and> missing = missing_columns [col_code_prefix, col_category_name] pB))))
   \<and> (try_body U envC = Inl (Raise cC textC) \<and> issubclass cC ValueError \<longrightarrow>
      HistoryDataSearch U envC = (None, msg_column_error @ textC))
   \<and> (try_body U envD = Inl (Raise cD textD) \<and> cD \<noteq> FileNotFoundError
        \<and> \<not> issubclass cD ValueError \<longrightarrow>
      HistoryDataSearch U envD = (None, msg_unexpected @ textD))
   \<and> (read_files envE = Inr (fE, iE, pE)
        \<and> check_columns (inlined_comprehensions envE) fE iE pE = None
        \<and> merge_checks envE iE pE = None \<and> to_csv envE = None \<longrightarrow>
      HistoryDataSearch U envE =
        (Some (reconcile U (rows fE) (rows iE) (rows pE)),
         summary (length (reconcile U (rows fE) (rows iE) (rows pE)))
           (sum_list (map change_flag (reconcile U (rows fE) (rows iE) (rows pE))))
           (output_file envE)))
   \<and> (try_body U envF = Inl eF \<longleftrightarrow>
        read_files envF = Inl eF
        \<or> (\<exists>f i p. read_files envF = Inr (f, i, p)
             \<and> (check_columns (inlined_comprehensions envF) f i p = Some eF
                 \<or> (check_columns (inlined_comprehensions envF) f i p = None
                     \<and> (merge_checks envF i p = Some eF
                         \<or> (merge_checks envF i p = None \<and> to_csv envF = Some eF))))))
   \<and> (fst (HistoryDataSearch U envF) = None \<longleftrightarrow> (\<exists>e. try_body U envF = Inl e))
   \<and> msg_file_missing @ a \<noteq> msg_column_error @ b
   \<and> msg_column_error @ a \<noteq> msg_unexpected @ b
   \<and> msg_file_missing @ a \<noteq> msg_unexpected @ b"
proof (intro conjI impI)
  assume "read_files envA = Inl (Raise FileNotFoundError textA)"
  then show "HistoryDataSearch U envA = (None, msg_file_missing @ textA)"
    by (simp add: HistoryDataSearch_def try_body_def)
next
  assume a: "inlined_comprehensions envB \<and> read_files envB = Inr (fB, iB, pB)
        \<and> check_columns True fB iB pB = Some eB"
  then have t: "try_body U envB = Inl eB" by (simp add: try_body_def)
  have h: "HistoryDataSearch U envB =
             (None, msg_column_error @ n @ lacks_columns @ repr_list m)"
    if "eB = missing_error n m" for n m
    using t that by (simp add: HistoryDataSearch_def missing_error_def)
  from a check_columns_Some [of fB iB pB eB] h
  show "\<exists>df_name missing. missing \<noteq> [] \<and>
         HistoryDataSearch U envB =
           (None, msg_column_error @ df_name @ lacks_columns @ repr_list missing)
         \<and> ((df_name = name_df_format \<and> missing = missing_columns [col_category] fB)
            \<or> (df_name = name_df_index \<and> missing = missing_columns [col_name, col_func_code] iB)
            \<or> (df_name = name_df_price
                \<and> missing = missing_columns [col_code_prefix, col_category_name] pB))"
    by blast
next
  assume "try_body U envC = Inl (Raise cC textC) \<and> issubclass cC ValueError"
  then show "HistoryDataSearch U envC = (None, msg_column_error @ textC)"
    by (auto simp: HistoryDataSearch_def)
next
  assume "try_body U envD = Inl (Raise cD textD) \<and> cD \<noteq> FileNotFoundError
        \<and> \<not> issubclass cD ValueError"
  then show "HistoryDataSearch U envD = (None, msg_unexpected @ textD)"
    by (simp add: HistoryDataSearch_def)
next
  assume "read_files envE = Inr (fE, iE, pE)
        \<and> check_columns (inlined_comprehensions envE) fE iE pE = None
        \<and> merge_checks envE iE pE = None \<and> to_csv envE = None"
  then show "HistoryDataSearch U envE =
        (Some (reconcile U (rows fE) (rows iE) (rows pE)),
         summary (length (reconcile U (rows fE) (rows iE) (rows pE)))
           (sum_list (map change_flag (reconcile U (rows fE) (rows iE) (rows pE))))
           (output_file envE))"
    by (simp add: HistoryDataSearch_def try_body_def Let_def)
next
  show "try_body U envF = Inl eF \<longleftrightarrow>
        read_files envF = Inl eF
        \<or> (\<exists>f i p. read_files envF = Inr (f, i, p)
             \<and> (check_columns (inlined_comprehensions envF) f i p = Some eF
                 \<or> (check_columns (inlined_comprehensions envF) f i p = None
                     \<and> (merge_checks envF i p = Some eF
                         \<or> (merge_checks envF i p = None \<and> to_csv envF = Some eF)))))"
    by (auto simp: try_body_def Let_def split: sum.splits option.splits prod.splits)
next
  show "fst (HistoryDataSearch U envF) = None \<longleftrightarrow> (\<exists>e. try_body U envF = Inl e)"
    by (auto simp: HistoryDataSearch_def split: sum.splits prod.splits)
next
  show "msg_file_missing @ a \<noteq> msg_column_error @ b"
    by (simp add: msg_file_missing_def msg_column_error_def)
  show "msg_column_error @ a \<noteq> msg_unexpected @ b"
    by (simp add: msg_unexpected_def msg_column_error_def)
  show "msg_file_missing @ a \<noteq> msg_unexpected @ b"
    by (simp add: msg_file_missing_def msg_unexpected_def)
qed

text \<open>
  C4: at three inputs the code does not give the message the claim names.
  \<^item> The format file is not valid UTF-8 and \<open>pd.read_csv\<close> raises \<open>UnicodeDecodeError\<close>.  It
    is a \<open>ValueError\<close>, so the second handler takes it: the message is the data-column
    message, where the claim has the generic one.
  \<^item> The three files are read, the format frame lacks its category column, and the
    interpreter is older than Python 3.12.  The column check raises \<open>KeyError\<close> before it
    compares any column: the message is the generic one with the text \<open>'df_format'\<close>,
    where the claim has the data-column message that names the missing column.
  \<^item> All columns are present, the code column of the price table holds integers and
    that of the index table text, and \<open>pd.merge\<close> refuses the pair with a \<open>ValueError\<close>:
    the message is the data-column message, where the claim has the generic one.
\<close>

theorem handlers_failing_inputs:
  "HistoryDataSearch unicode_excerpt
     \<lparr>inlined_comprehensions = True,
      read_format = Inl (Raise UnicodeDecodeError [0x78]),
      read_index = Inr \<lparr>columns = [], rows = ([] :: pyval index_row list)\<rparr>,
      read_price = Inr \<lparr>columns = [], rows = ([] :: (pyval, unit) price_row list)\<rparr>,
      merge_keys_check = (\<lambda>l r. None), merge_indicator_check = (\<lambda>cs. None),
      to_csv = None, output_file = [0x6F]\<rparr>
     = (None, msg_column_error @ [0x78])
   \<and> msg_column_error @ [0x78] \<noteq> msg_unexpected @ [0x78]
   \<and> HistoryDataSearch unicode_excerpt
     \<lparr>inlined_comprehensions = False,
      read_format = Inr \<lparr>columns = [], rows = []\<rparr>,
      read_index = Inr \<lparr>columns = [col_name, col_func_code],
                         rows = ([] :: pyval index_row list)\<rparr>,
      read_price = Inr \<lparr>columns = [col_code_prefix, col_category_name],
                         rows = ([] :: (pyval, unit) price_row list)\<rparr>,
      merge_keys_check = (\<lambda>l r. None), merge_indicator_check = (\<lambda>cs. None),
      to_csv = None, output_file = [0x6F]\<rparr>
     = (None, msg_unexpected @ [0x27] @ name_df_format @ [0x27])
   \<and> msg_unexpected @ [0x27] @ name_df_format @ [0x27]
       \<noteq> msg_column_error @ name_df_format @ lacks_columns @ repr_list [col_category]
   \<and> HistoryDataSearch unicode_excerpt
     \<lparr>inlined_comprehensions = True,
      read_format = Inr \<lparr>columns = [col_category], rows = [PyStr [0x46]]\<rparr>,
      read_index = Inr \<lparr>columns = [col_name, col_func_code],
                         rows = [\<lparr>func_code = PyStr [0x41, 0x31, 0x32, 0x33, 0x34],
                                  name = PyStr [0x78]\<rparr>]\<rparr>,
      read_price = Inr \<lparr>columns = [col_code_prefix, col_category_name],
                         rows = [\<lparr>code_prefix = PyInt 12345, category_name = PyStr [0x46],
                                  rest = ()\<rparr>]\<rparr>,
      merge_keys_check =
        (\<lambda>l r. if l = [PyInt 12345] \<and> r = [PyStr [0x41, 0x31, 0x32, 0x33, 0x34]]
               then Some (Raise ValueError [0x79]) else None),
      merge_indicator_check = (\<lambda>cs. None),
      to_csv = None, output_file = [0x6F]\<rparr>
     = (None, msg_column_error @ [0x79])
   \<and> msg_column_error @ [0x79] \<noteq> msg_unexpected @ [0x79]"
  by (simp add: HistoryDataSearch_def try_body_def read_files_def check_columns_def
      missing_columns_def merge_checks_def key_error_df_format_def
      msg_column_error_def msg_unexpected_def)

end
